theory Spec2Isabelle
  imports Main "HOL-Library.Sublist"
begin

section \<open>Strings\<close>

text \<open>
  Python strings are modelled as \<^typ>\<open>string\<close>; the model covers text of ASCII characters
  (for which \<open>_checknetloc\<close> of \<open>urllib.parse\<close> returns at once). The letters, the
  digits and the lower case of a character are those of ASCII.
\<close>

definition code :: "char \<Rightarrow> nat" where
  "code c = of_char c"

definition ascii_uppercase :: string where
  "ascii_uppercase = ''ABCDEFGHIJKLMNOPQRSTUVWXYZ''"

definition ascii_lowercase :: string where
  "ascii_lowercase = ''abcdefghijklmnopqrstuvwxyz''"

definition is_upper :: "char \<Rightarrow> bool" where
  "is_upper c = (c \<in> set ascii_uppercase)"

definition is_lower :: "char \<Rightarrow> bool" where
  "is_lower c = (c \<in> set ascii_lowercase)"

definition is_digit :: "char \<Rightarrow> bool" where
  "is_digit c = (c \<in> set ''0123456789'')"

definition is_alpha :: "char \<Rightarrow> bool" where
  "is_alpha c = (is_upper c \<or> is_lower c)"

definition lower_char :: "char \<Rightarrow> char" where
  "lower_char c =
     (case map_of (zip ascii_uppercase ascii_lowercase) c of Some l \<Rightarrow> l | None \<Rightarrow> c)"

definition lower :: "string \<Rightarrow> string" where
  "lower s = map lower_char s"

definition startswith :: "string \<Rightarrow> string \<Rightarrow> bool" where
  "startswith s p = (take (length p) s = p)"

definition endswith :: "string \<Rightarrow> string \<Rightarrow> bool" where
  "endswith s p = (length p \<le> length s \<and> drop (length s - length p) s = p)"

text \<open>\<open>needle in s\<close> for strings.\<close>

fun contains :: "string \<Rightarrow> string \<Rightarrow> bool" where
  "contains [] needle = (needle = [])"
| "contains (c # cs) needle = (startswith (c # cs) needle \<or> contains cs needle)"

text \<open>\<open>s.find(c)\<close> and \<open>s.rfind(c)\<close> for a single character; \<open>None\<close> stands for -1.\<close>

fun find_str :: "char \<Rightarrow> string \<Rightarrow> nat option" where
  "find_str c [] = None"
| "find_str c (x # xs) = (if x = c then Some 0 else map_option Suc (find_str c xs))"

definition find_from :: "char \<Rightarrow> nat \<Rightarrow> string \<Rightarrow> nat option" where
  "find_from c start s = map_option (\<lambda>i. start + i) (find_str c (drop start s))"

fun rfind :: "char \<Rightarrow> string \<Rightarrow> nat option" where
  "rfind c [] = None"
| "rfind c (x # xs) =
     (case rfind c xs of Some i \<Rightarrow> Some (Suc i) | None \<Rightarrow> if x = c then Some 0 else None)"

text \<open>\<open>s.split(c)\<close> for a single character separator.\<close>

fun split :: "char \<Rightarrow> string \<Rightarrow> string list" where
  "split c [] = [[]]"
| "split c (x # xs) =
     (if x = c then [] # split c xs
      else (case split c xs of [] \<Rightarrow> [[x]] | w # ws \<Rightarrow> (x # w) # ws))"

text \<open>\<open>sep.join(parts)\<close>.\<close>

fun join :: "string \<Rightarrow> string list \<Rightarrow> string" where
  "join sep [] = []"
| "join sep [p] = p"
| "join sep (p # q # ps) = p @ sep @ join sep (q # ps)"

text \<open>
  \<open>s.replace(old, new)\<close>: the occurrences of \<open>old\<close> are replaced from left to right,
  without overlap, and the inserted text is not scanned again. With an empty \<open>old\<close>,
  \<open>new\<close> is put before every character and at the end.
\<close>

fun replace_from :: "string \<Rightarrow> string \<Rightarrow> string \<Rightarrow> string" where
  "replace_from old new [] = []"
| "replace_from old new (c # cs) =
     (if startswith (c # cs) old then new @ replace_from old new (drop (length old - 1) cs)
      else c # replace_from old new cs)"

definition replace :: "string \<Rightarrow> string \<Rightarrow> string \<Rightarrow> string" where
  "replace s old new =
     (if old = [] then new @ concat (map (\<lambda>c. c # new) s) else replace_from old new s)"

section \<open>Regular expressions\<close>

text \<open>
  The patterns of the program are sequences of character classes, each taken once, one or
  more times (\<open>+\<close>) or any number of times (\<open>*\<close>), all greedy. \<open>match_here\<close> is the
  backtracking matcher of \<open>re\<close> on such a sequence: it returns the text left after the
  first match in the order the matcher tries them (longest repetition first).
\<close>

datatype quant = One | Plus | Star

type_synonym atom = "(char \<Rightarrow> bool) \<times> quant"

fun match_here :: "atom list \<Rightarrow> string \<Rightarrow> string option" where
  "match_here [] s = Some s"
| "match_here ((p, One) # as) [] = None"
| "match_here ((p, One) # as) (c # cs) = (if p c then match_here as cs else None)"
| "match_here ((p, Plus) # as) [] = None"
| "match_here ((p, Plus) # as) (c # cs) =
     (if p c then match_here ((p, Star) # as) cs else None)"
| "match_here ((p, Star) # as) [] = match_here as []"
| "match_here ((p, Star) # as) (c # cs) =
     (if p c then
        (case match_here ((p, Star) # as) cs of
           Some r \<Rightarrow> Some r
         | None \<Rightarrow> match_here as (c # cs))
      else match_here as (c # cs))"

text \<open>
  \<open>re.sub(pattern, repl, s)\<close> for a replacement without group references: the leftmost
  match at each position is replaced and the scan goes on after it; an empty match puts
  \<open>repl\<close> before the character and moves one character on.
\<close>

function re_sub :: "atom list \<Rightarrow> string \<Rightarrow> string \<Rightarrow> string" where
  "re_sub pat repl s =
     (case match_here pat s of
        None \<Rightarrow> (case s of [] \<Rightarrow> [] | c # cs \<Rightarrow> c # re_sub pat repl cs)
      | Some r \<Rightarrow>
          if length r < length s then repl @ re_sub pat repl r
          else (case s of [] \<Rightarrow> repl | c # cs \<Rightarrow> repl @ c # re_sub pat repl cs))"
  by pat_completeness auto
termination
  by (relation "measure (\<lambda>(pat, repl, s). length s)") auto

text \<open>A literal, matched as it is or without regard to case (\<open>re.IGNORECASE\<close>).\<close>

definition lit :: "string \<Rightarrow> atom list" where
  "lit s = map (\<lambda>c. ((\<lambda>x. x = c), One)) s"

definition lit_i :: "string \<Rightarrow> atom list" where
  "lit_i s = map (\<lambda>c. ((\<lambda>x. lower_char x = lower_char c), One)) s"

text \<open>\<open>\s\<close> on text: the characters for which \<open>str.isspace\<close> holds.\<close>

definition is_space :: "char \<Rightarrow> bool" where
  "is_space c = (c \<in> set [CHR 0x09, CHR 0x0A, CHR 0x0B, CHR 0x0C, CHR 0x0D,
     CHR 0x1C, CHR 0x1D, CHR 0x1E, CHR 0x1F, CHR 0x20, CHR 0x85, CHR 0xA0])"

section \<open>urllib.parse.urlparse\<close>

datatype error = ValueError | OSError

record parse_result =
  scheme :: string
  netloc :: string
  path :: string
  params :: string
  query :: string
  fragment :: string

definition scheme_chars :: string where
  "scheme_chars = ''abcdefghijklmnopqrstuvwxyzABCDEFGHIJKLMNOPQRSTUVWXYZ0123456789+-.''"

definition uses_params :: "string list" where
  "uses_params = ['''', ''ftp'', ''hdl'', ''prospero'', ''http'', ''imap'',
     ''https'', ''shttp'', ''rtsp'', ''rtsps'', ''rtspu'', ''sip'',
     ''sips'', ''mms'', ''sftp'', ''tel'']"

text \<open>\<open>_splitnetloc(url, 2)\<close>: the netloc runs to the first of \<open>/ ? #\<close>.\<close>

definition splitnetloc :: "string \<Rightarrow> string \<times> string" where
  "splitnetloc url =
     (let rest = drop 2 url;
          dom = takeWhile (\<lambda>c. c \<noteq> CHR ''/'' \<and> c \<noteq> CHR ''?'' \<and> c \<noteq> CHR ''#'') rest
      in (dom, drop (length dom) rest))"

text \<open>
  \<open>urlsplit\<close> of Python 3.11. The check of a bracketed host (\<open>_check_bracketed_host\<close>, which
  calls the \<open>ipaddress\<close> module) is the parameter \<open>host_ok\<close>: it holds when the check
  does not raise.
\<close>

definition urlsplit :: "(string \<Rightarrow> bool) \<Rightarrow> string \<Rightarrow> error + parse_result" where
  "urlsplit host_ok url0 =
     (let url = dropWhile (\<lambda>c. code c \<le> 32) url0;
          url = filter (\<lambda>c. c \<noteq> CHR 0x09 \<and> c \<noteq> CHR 0x0D \<and> c \<noteq> CHR 0x0A) url;
          (sch, url) =
            (case find_str CHR '':'' url of
               None \<Rightarrow> ('''', url)
             | Some i \<Rightarrow>
                 if 0 < i \<and> is_alpha (hd url) \<and> list_all (\<lambda>c. c \<in> set scheme_chars) (take i url)
                 then (lower (take i url), drop (Suc i) url)
                 else ('''', url));
          (nl, url) = (if take 2 url = ''//'' then splitnetloc url else ('''', url))
      in if (CHR ''['' \<in> set nl \<and> CHR '']'' \<notin> set nl) \<or> (CHR '']'' \<in> set nl \<and> CHR ''['' \<notin> set nl)
         then Inl ValueError
         else if CHR ''['' \<in> set nl \<and> CHR '']'' \<in> set nl
              \<and> \<not> host_ok (takeWhile (\<lambda>c. c \<noteq> CHR '']'') (tl (dropWhile (\<lambda>c. c \<noteq> CHR ''['') nl)))
         then Inl ValueError
         else
           let frag = (case find_str CHR ''#'' url of None \<Rightarrow> '''' | Some i \<Rightarrow> drop (Suc i) url);
               url = takeWhile (\<lambda>c. c \<noteq> CHR ''#'') url;
               qry = (case find_str CHR ''?'' url of None \<Rightarrow> '''' | Some i \<Rightarrow> drop (Suc i) url);
               url = takeWhile (\<lambda>c. c \<noteq> CHR ''?'') url
           in Inr \<lparr>scheme = sch, netloc = nl, path = url, params = '''',
                   query = qry, fragment = frag\<rparr>)"

text \<open>\<open>_splitparams\<close>: the parameters start at the first \<open>;\<close> of the last path segment.\<close>

definition splitparams :: "string \<Rightarrow> string \<times> string" where
  "splitparams url =
     (case (case rfind CHR ''/'' url of
              Some k \<Rightarrow> find_from CHR '';'' k url
            | None \<Rightarrow> find_str CHR '';'' url) of
        None \<Rightarrow> (url, '''')
      | Some i \<Rightarrow> (take i url, drop (Suc i) url))"

definition urlparse :: "(string \<Rightarrow> bool) \<Rightarrow> string \<Rightarrow> error + parse_result" where
  "urlparse host_ok url =
     (case urlsplit host_ok url of
        Inl e \<Rightarrow> Inl e
      | Inr r \<Rightarrow>
          if scheme r \<in> set uses_params \<and> CHR '';'' \<in> set (path r)
          then (case splitparams (path r) of (u, ps) \<Rightarrow> Inr (r\<lparr>path := u, params := ps\<rparr>))
          else Inr r)"

section \<open>The file system\<close>

text \<open>
  A path is the list of its components below the output directory \<open>OUT_DIR\<close> (the
  directory of the script), which exists; \<open>Path(*parts)\<close> drops the empty and the \<open>.\<close>
  components (POSIX flavour).
\<close>

type_synonym path = "string list"

definition Path :: "string list \<Rightarrow> path" where
  "Path parts = filter (\<lambda>x. x \<noteq> [] \<and> x \<noteq> ''.'') parts"

definition as_posix :: "path \<Rightarrow> string" where
  "as_posix p = (if p = [] then ''.'' else join ''/'' p)"

definition parent :: "path \<Rightarrow> path" where
  "parent p = butlast p"

record fs =
  dirs :: "path set"
  files :: "path \<rightharpoonup> string"

definition is_dir :: "fs \<Rightarrow> path \<Rightarrow> bool" where
  "is_dir s p = (p = [] \<or> p \<in> dirs s)"

definition exists_path :: "fs \<Rightarrow> path \<Rightarrow> bool" where
  "exists_path s p = (is_dir s p \<or> files s p \<noteq> None)"

text \<open>
  \<open>p.mkdir(parents=True, exist_ok=True)\<close>: raises when \<open>p\<close> or a directory above it is a
  file, and creates the missing directories otherwise.
\<close>

definition mkdir :: "fs \<Rightarrow> path \<Rightarrow> error + fs" where
  "mkdir s p =
     (if list_ex (\<lambda>q. files s q \<noteq> None) (prefixes p) then Inl OSError
      else Inr (s\<lparr>dirs := dirs s \<union> set (prefixes p)\<rparr>))"

text \<open>
  \<open>p.write_bytes(data)\<close>: raises when \<open>p\<close> is a directory or its parent is not one.
\<close>

definition write_bytes :: "fs \<Rightarrow> path \<Rightarrow> string \<Rightarrow> error + fs" where
  "write_bytes s p data =
     (if is_dir s p \<or> \<not> is_dir s (parent p) then Inl OSError
      else Inr (s\<lparr>files := (files s)(p \<mapsto> data)\<rparr>))"

section \<open>The mapping from a URL to a local path\<close>

definition ALLOWED_HOSTS :: "string list" where
  "ALLOWED_HOSTS = [''kalashnikovgroup.ru'', ''www.kalashnikovgroup.ru'',
     ''en.kalashnikovgroup.ru'']"

text \<open>The class \<open>[A-Za-z0-9.-]\<close> of the host and \<open>[A-Za-z0-9._/,\-]\<close> of the path.\<close>

definition host_safe :: "char \<Rightarrow> bool" where
  "host_safe c = (is_alpha c \<or> is_digit c \<or> c = CHR ''.'' \<or> c = CHR ''-'')"

definition path_safe :: "char \<Rightarrow> bool" where
  "path_safe c = (is_alpha c \<or> is_digit c \<or> c = CHR ''.'' \<or> c = CHR ''_''
     \<or> c = CHR ''/'' \<or> c = CHR '','' \<or> c = CHR ''-'')"

definition slash :: "char \<Rightarrow> bool" where
  "slash c = (c = CHR ''/'')"

text \<open>
  The parts of \<open>local_path_for_url\<close>: \<open>host_parts\<close> is \<open>rel_parts\<close> (the directory of a host
  that is not one of the site's own), \<open>safe_path_of\<close> is \<open>safe_path\<close> (the path with the
  index segment added, the leading separator removed, the characters replaced and the
  separators collapsed).
\<close>

definition host_parts :: "string \<Rightarrow> string list" where
  "host_parts host =
     (if host \<noteq> [] \<and> host \<notin> set ALLOWED_HOSTS
      then [''external'', re_sub [(\<lambda>c. \<not> host_safe c, One)] ''_'' host]
      else [])"

definition safe_path_of :: "string \<Rightarrow> string" where
  "safe_path_of p =
     (let pth = (if p = [] then ''/'' else p);
          pth = (if endswith pth ''/'' then pth @ ''index'' else pth);
          pth = (if startswith pth ''/'' then drop 1 pth else pth);
          safe_path = re_sub [(\<lambda>c. \<not> path_safe c, One)] ''_'' pth
      in re_sub [(slash, One), (slash, Plus)] ''/'' safe_path)"

text \<open>
  \<open>local_path_for_url\<close>: the result is \<open>None\<close> for a URL that is not mirrored, and the
  pair of the absolute path and the relative reference otherwise; the directory of the
  absolute path is created on the way.
\<close>

definition local_path_for_url ::
  "(string \<Rightarrow> bool) \<Rightarrow> fs \<Rightarrow> string \<Rightarrow> error + ((path \<times> string) option \<times> fs)" where
  "local_path_for_url host_ok s url =
     (case urlparse host_ok url of
        Inl e \<Rightarrow> Inl e
      | Inr parsed \<Rightarrow>
          if scheme parsed \<noteq> ''http'' \<and> scheme parsed \<noteq> ''https'' then Inr (None, s)
          else
            let rel_path = Path (host_parts (netloc parsed)
                                 @ split CHR ''/'' (safe_path_of (path parsed)));
                abs_path = ''assets'' # rel_path
            in (case mkdir s (parent abs_path) of
                  Inl e \<Rightarrow> Inl e
                | Inr s' \<Rightarrow> Inr (Some (abs_path, as_posix (''assets'' # rel_path)), s')))"

text \<open>
  The file system at the start of a run (the directory \<open>assets\<close> is made when the script
  is loaded) and a check of bracketed hosts that accepts every host.
\<close>

definition fs0 :: fs where
  "fs0 = \<lparr>dirs = {[''assets'']}, files = Map.empty\<rparr>"

definition accept_all :: "string \<Rightarrow> bool" where
  "accept_all h = True"

section \<open>Recording the responses\<close>

definition START_URL :: string where
  "START_URL = ''https://kalashnikovgroup.ru/''"

text \<open>
  A dictionary with string keys keeps the order of insertion: an assignment to a key that
  is present keeps its place, a new key goes to the end.
\<close>

type_synonym dict = "(string \<times> string) list"

definition has_key :: "dict \<Rightarrow> string \<Rightarrow> bool" where
  "has_key d k = (k \<in> set (map fst d))"

fun dict_set :: "dict \<Rightarrow> string \<Rightarrow> string \<Rightarrow> dict" where
  "dict_set [] k v = [(k, v)]"
| "dict_set ((k', v') # d) k v = (if k' = k then (k, v) # d else (k', v') # dict_set d k v)"

text \<open>
  A response as the handler reads it: the result of \<open>response.body()\<close> is the body, no
  body, or an exception.
\<close>

datatype body_result = Body string | NoBody | BodyRaises

record response =
  resp_url :: string
  resp_status :: int
  resp_content_type :: "string option"
  resp_body :: body_result

text \<open>
  The state of a capture: the two dictionaries, the file system, and the list of the
  calls of \<open>write_bytes\<close> that succeeded (the URL and the path of each), which the program
  does not keep and the statements about the writes need.
\<close>

record capture =
  saved_map :: dict
  url_map :: dict
  fsys :: fs
  writes :: "(string \<times> path) list"

definition content_types :: "string list" where
  "content_types = [''text/css'', ''javascript'', ''application/x-javascript'',
     ''application/octet-stream'', ''application/wasm'', ''model/'',
     ''application/gltf+json'', ''application/json'']"

definition extensions :: "string list" where
  "extensions = [''.css'', ''.js'', ''.mjs'', ''.png'', ''.jpg'', ''.jpeg'', ''.webp'',
     ''.gif'', ''.svg'', ''.ico'', ''.woff'', ''.woff2'', ''.ttf'', ''.eot'', ''.otf'',
     ''.mp4'', ''.webm'', ''.mp3'', ''.ogg'', ''.wav'', ''.gltf'', ''.glb'', ''.bin'',
     ''.wasm'', ''.ktx'', ''.ktx2'', ''.basis'', ''.hdr'', ''.env'', ''.dds'', ''.json'']"

text \<open>
  The test of the handler for a static asset; the third alternative parses the URL and is
  reached only when the first two fail.
\<close>

definition is_asset :: "(string \<Rightarrow> bool) \<Rightarrow> response \<Rightarrow> error + bool" where
  "is_asset host_ok r =
     (let u = resp_url r;
          ct = lower (case resp_content_type r of None \<Rightarrow> [] | Some c \<Rightarrow> c)
      in if list_ex (\<lambda>x. contains ct x) content_types then Inr True
         else if list_ex (\<lambda>ext. endswith (hd (split CHR ''?'' (lower u))) ext) extensions
         then Inr True
         else (case urlparse host_ok u of
                 Inl e \<Rightarrow> Inl e
               | Inr parsed \<Rightarrow> Inr (startswith (path parsed) ''/_next/'')))"

text \<open>
  \<open>on_response\<close>: every exception ends the handler (\<open>except Exception: pass\<close>) and leaves
  what was done before it. One call of the handler is one step: the model has no
  interleaving of two handlers.
\<close>

definition on_response :: "(string \<Rightarrow> bool) \<Rightarrow> capture \<Rightarrow> response \<Rightarrow> capture" where
  "on_response host_ok st r =
     (let u = resp_url r
      in if resp_status r < 200 \<or> resp_status r \<ge> 400 then st
         else (case is_asset host_ok r of
                 Inl e \<Rightarrow> st
               | Inr False \<Rightarrow> st
               | Inr True \<Rightarrow>
                   (case local_path_for_url host_ok (fsys st) u of
                      Inl e \<Rightarrow> st
                    | Inr (None, s1) \<Rightarrow> st\<lparr>fsys := s1\<rparr>
                    | Inr (Some (abs_path, rel_path), s1) \<Rightarrow>
                        if has_key (saved_map st) u then st\<lparr>fsys := s1\<rparr>
                        else (case resp_body r of
                                BodyRaises \<Rightarrow> st\<lparr>fsys := s1\<rparr>
                              | NoBody \<Rightarrow> st\<lparr>fsys := s1\<rparr>
                              | Body b \<Rightarrow>
                                  (case write_bytes s1 abs_path b of
                                     Inl e \<Rightarrow> st\<lparr>fsys := s1\<rparr>
                                   | Inr s2 \<Rightarrow>
                                       st\<lparr>fsys := s2,
                                          writes := writes st @ [(u, abs_path)],
                                          saved_map := dict_set (saved_map st) u
                                            (replace rel_path [CHR 0x5C] ''/'')\<rparr>)))))"

text \<open>
  \<open>fetch_binary\<close>: the network is the parameter \<open>urlopen\<close>, the body of the answer or an
  exception; every exception gives \<open>None\<close>.
\<close>

definition fetch_binary :: "(string \<Rightarrow> error + string) \<Rightarrow> string \<Rightarrow> string option" where
  "fetch_binary urlopen u = (case urlopen u of Inl e \<Rightarrow> None | Inr b \<Rightarrow> Some b)"

text \<open>
  The collaborators of the scan of the document: the check of a bracketed host, the
  function \<open>urljoin\<close> of \<open>urllib.parse\<close>, and the network.
\<close>

record env =
  env_host_ok :: "string \<Rightarrow> bool"
  env_urljoin :: "string \<Rightarrow> string \<Rightarrow> error + string"
  env_urlopen :: "string \<Rightarrow> error + string"

text \<open>
  One turn of the loop over \<open>asset_urls\<close>. An exception of \<open>urljoin\<close> or of
  \<open>local_path_for_url\<close> is not caught here and ends the capture.
\<close>

definition scan_url :: "env \<Rightarrow> capture \<Rightarrow> string \<Rightarrow> error + capture" where
  "scan_url e st u =
     (if u = [] then Inr st
      else if startswith u ''data:'' then Inr st
      else (case env_urljoin e START_URL u of
              Inl x \<Rightarrow> Inl x
            | Inr abs_url \<Rightarrow>
                if has_key (url_map st) abs_url then Inr st
                else (case local_path_for_url (env_host_ok e) (fsys st) abs_url of
                        Inl x \<Rightarrow> Inl x
                      | Inr (None, s1) \<Rightarrow> Inr (st\<lparr>fsys := s1\<rparr>)
                      | Inr (Some (abs_path, rel_path), s1) \<Rightarrow>
                          if exists_path s1 abs_path
                          then Inr (st\<lparr>fsys := s1,
                                 url_map := dict_set (url_map st) abs_url
                                   (replace rel_path [CHR 0x5C] ''/'')\<rparr>)
                          else (case fetch_binary (env_urlopen e) abs_url of
                                  None \<Rightarrow> Inr (st\<lparr>fsys := s1\<rparr>)
                                | Some data \<Rightarrow>
                                    if data = [] then Inr (st\<lparr>fsys := s1\<rparr>)
                                    else (case write_bytes s1 abs_path data of
                                            Inl x \<Rightarrow> Inr (st\<lparr>fsys := s1\<rparr>)
                                          | Inr s2 \<Rightarrow>
                                              Inr (st\<lparr>fsys := s2,
                                                writes := writes st @ [(abs_url, abs_path)],
                                                url_map := dict_set (url_map st) abs_url
                                                  (replace rel_path [CHR 0x5C] ''/'')\<rparr>))))))"

fun scan_urls :: "env \<Rightarrow> capture \<Rightarrow> string list \<Rightarrow> error + capture" where
  "scan_urls e st [] = Inr st"
| "scan_urls e st (u # us) =
     (case scan_url e st u of Inl x \<Rightarrow> Inl x | Inr st' \<Rightarrow> scan_urls e st' us)"

text \<open>
  The part of \<open>capture_page\<close> that records: the responses the listener gets, then the
  copy of \<open>saved_map\<close> into \<open>url_map\<close> and the scan of the URLs found in the document.
\<close>

definition record_assets ::
  "env \<Rightarrow> capture \<Rightarrow> response list \<Rightarrow> string list \<Rightarrow> error + capture" where
  "record_assets e st rs asset_urls =
     (let st1 = foldl (on_response (env_host_ok e)) st rs
      in scan_urls e (st1\<lparr>url_map := saved_map st1\<rparr>) asset_urls)"

section \<open>Rewriting the document\<close>

definition rewriter_js :: string where
  "rewriter_js = concat (map (\<lambda>l. l @ [CHR 0x0A])
    [[],
     ''<script>(function(){'',
     ''  function mapUrl(u){'',
     ''    try{'',
     ''      var a=document.createElement('a');'',
     ''      a.href=u;'',
     ''      if(!a.protocol || a.protocol==='file:' || u.startsWith('/') || u.startsWith('./') || u.startsWith('../')) return u;'',
     ''      if(a.protocol==='http:'||a.protocol==='https:'){'',
     ''        var host=a.host; var path=a.pathname||'/';'',
     ''        if(path.endsWith('/')) path += 'index';'',
     ''        if(path.startsWith('/')) path = path.slice(1);'',
     ''        var safePath=path.replace(/[^A-Za-z0-9._/,-]/g,'_').replace(/'' @ [CHR 0x5C] @ ''/{2,}/g,'/');'',
     ''        var rel='assets/';'',
     ''        if(!/^(.+'' @ [CHR 0x5C] @ ''.)?kalashnikovgroup'' @ [CHR 0x5C] @ ''.ru$/i.test(host)) rel += 'external/' + host.replace(/[^A-Za-z0-9.-]/g,'_') + '/';'',
     ''        return '/' + rel + safePath;'',
     ''      }'',
     ''    }catch(e){return u}'',
     ''    return u;'',
     ''  }'',
     ''  var ofetch=window.fetch;'',
     ''  if(ofetch){'',
     ''    window.fetch=function(input, init){'',
     ''      try{'',
     ''        var url = (typeof input==='string')? input : (input && input.url ? input.url : input);'',
     ''        var mapped = mapUrl(url);'',
     ''        if(typeof input==='string') return ofetch(mapped, init||undefined);'',
     ''        try{ return ofetch(new Request(mapped, input), init||undefined);}catch(e){ return ofetch(mapped, init||undefined); }'',
     ''      }catch(e){ return ofetch(input, init||undefined); }'',
     ''    }'',
     ''  }'',
     ''  var oopen = XMLHttpRequest.prototype.open;'',
     ''  XMLHttpRequest.prototype.open = function(method, url){'',
     ''    try{ arguments[1]=mapUrl(url);}catch(e){}'',
     ''    return oopen.apply(this, arguments);'',
     ''  };'',
     ''})();</script>''])"

text \<open>
  One turn of the loop over \<open>url_map.items()\<close>; an exception of \<open>urlparse\<close> ends the turn
  and keeps the first replacement.
\<close>

definition rewrite_pair :: "(string \<Rightarrow> bool) \<Rightarrow> string \<Rightarrow> string \<times> string \<Rightarrow> string" where
  "rewrite_pair host_ok rewritten p =
     (case p of (src_url, local_rel) \<Rightarrow>
        let rewritten = replace rewritten src_url local_rel
        in (case urlparse host_ok src_url of
              Inl e \<Rightarrow> rewritten
            | Inr parsed \<Rightarrow>
                let rewritten =
                      (if netloc parsed \<noteq> []
                       then replace rewritten (''//'' @ netloc parsed @ path parsed) local_rel
                       else rewritten)
                in if path parsed \<noteq> [] then replace rewritten (path parsed) local_rel
                   else rewritten))"

definition not_gt :: "char \<Rightarrow> bool" where
  "not_gt c = (c \<noteq> CHR ''>'')"

definition not_quote :: "char \<Rightarrow> bool" where
  "not_quote c = (c \<noteq> CHR 0x22)"

definition csp_http_equiv :: "atom list" where
  "csp_http_equiv = lit_i ''<meta'' @ [(not_gt, Plus)]
     @ lit_i ''http-equiv=\"Content-Security-Policy\"'' @ [(not_gt, Star)] @ lit_i ''>''
     @ [(is_space, Star)]"

definition csp_content :: "atom list" where
  "csp_content = lit_i ''<meta'' @ [(not_gt, Plus)] @ lit_i ''content=\"''
     @ [(not_quote, Star)] @ lit_i ''Content-Security-Policy'' @ [(not_quote, Star)]
     @ lit_i ''\"'' @ [(not_gt, Star)] @ lit_i ''>'' @ [(is_space, Star)]"

definition integrity_attr :: "atom list" where
  "integrity_attr = [(is_space, Plus)] @ lit_i ''integrity=\"'' @ [(not_quote, Star)]
     @ lit_i ''\"''"

definition crossorigin_attr :: "atom list" where
  "crossorigin_attr = [(is_space, Plus)] @ lit_i ''crossorigin=\"'' @ [(not_quote, Star)]
     @ lit_i ''\"''"

definition strip_csp :: "string \<Rightarrow> string" where
  "strip_csp rewritten = re_sub csp_content [] (re_sub csp_http_equiv [] rewritten)"

definition strip_sri :: "string \<Rightarrow> string" where
  "strip_sri rewritten = re_sub crossorigin_attr [] (re_sub integrity_attr [] rewritten)"

definition inject :: "string \<Rightarrow> string" where
  "inject rewritten =
     (if contains rewritten ''</head>''
      then replace rewritten ''</head>'' (rewriter_js @ ''</head>'')
      else rewriter_js @ rewritten)"

text \<open>The rewrite of \<open>capture_page\<close>: the document and \<open>url_map\<close> give the archived document.\<close>

definition rewrite :: "(string \<Rightarrow> bool) \<Rightarrow> string \<Rightarrow> dict \<Rightarrow> string" where
  "rewrite host_ok html m =
     inject (strip_sri (strip_csp (foldl (rewrite_pair host_ok) html m)))"

section \<open>Notions for the statements\<close>

text \<open>
  The text with every separator removed that follows a separator, and the test for two
  separators side by side.
\<close>

fun squeeze :: "string \<Rightarrow> string" where
  "squeeze [] = []"
| "squeeze [a] = [a]"
| "squeeze (a # b # s) =
     (if a = CHR ''/'' \<and> b = CHR ''/'' then squeeze (b # s) else a # squeeze (b # s))"


text \<open>What the two replacements of \<open>local_path_for_url\<close> do to one character.\<close>

definition sanitize_char :: "char \<Rightarrow> char" where
  "sanitize_char c = (if path_safe c then c else CHR ''_'')"




text \<open>The state at the start of a capture, and a response with a script.\<close>

definition cap0 :: capture where
  "cap0 = \<lparr>saved_map = [], url_map = [], fsys = fs0, writes = []\<rparr>"

definition js_response :: response where
  "js_response = \<lparr>resp_url = ''https://kalashnikovgroup.ru/a.js'', resp_status = 200,
     resp_content_type = Some ''application/javascript'', resp_body = Body ''x''\<rparr>"

declare re_sub.simps [simp del]

section \<open>Properties of the mapping\<close>

lemma urlsplit_error: "urlsplit host_ok url = Inl e \<Longrightarrow> e = ValueError"
  by (auto simp: urlsplit_def Let_def split: prod.splits if_splits option.splits)

lemma urlparse_error: "urlparse host_ok url = Inl e \<Longrightarrow> e = ValueError"
  by (auto simp: urlparse_def split: sum.splits if_splits prod.splits dest: urlsplit_error)

lemma mkdir_error: "mkdir s p = Inl e \<Longrightarrow> e = OSError"
  by (auto simp: mkdir_def split: if_splits)

lemma mkdir_again: "mkdir s p = Inr s1 \<Longrightarrow> mkdir s1 p = Inr s1"
  by (auto simp: mkdir_def split: if_splits)

lemma mkdir_files: "mkdir s p = Inr s1 \<Longrightarrow> files s1 = files s"
  by (auto simp: mkdir_def split: if_splits)

subsection \<open>Examples\<close>

lemma example_parse:
  "urlparse accept_all ''https://kalashnikovgroup.ru/a/b.js''
     = Inr \<lparr>scheme = ''https'', netloc = ''kalashnikovgroup.ru'', path = ''/a/b.js'',
            params = [], query = [], fragment = []\<rparr>"
  by code_simp

lemma example_path:
  "Path (host_parts ''kalashnikovgroup.ru'' @ split CHR ''/'' (safe_path_of ''/a/b.js''))
     = [''a'', ''b.js'']"
  by code_simp

lemma example_posix: "as_posix [''assets'', ''a'', ''b.js''] = ''assets/a/b.js''"
  by code_simp

lemma example_mkdir:
  "mkdir fs0 [''assets'', ''a'']
     = Inr (fs0\<lparr>dirs := {[''assets''], [], [''assets'', ''a'']}\<rparr>)"
  by (auto simp: mkdir_def fs0_def)

lemma example_local_path:
  "local_path_for_url accept_all fs0 ''https://kalashnikovgroup.ru/a/b.js''
     = Inr (Some ([''assets'', ''a'', ''b.js''], ''assets/a/b.js''),
            fs0\<lparr>dirs := {[''assets''], [], [''assets'', ''a'']}\<rparr>)"
  by (simp add: local_path_for_url_def example_parse example_path example_posix
      example_mkdir parent_def)

lemma example_raise_parse: "urlparse accept_all ''http://['' = Inl ValueError"
  by code_simp

lemma example_raise: "local_path_for_url accept_all s ''http://['' = Inl ValueError"
  by (simp add: local_path_for_url_def example_raise_parse)

subsection \<open>The scheme filter\<close>

text \<open>
  Claim C3. When the scheme that \<open>urlparse\<close> finds in the URL is neither \<open>http\<close> nor
  \<open>https\<close>, \<open>local_path_for_url\<close> returns \<open>None\<close>: no local path is produced and the file
  system is left as it was. The data URI \<open>data:image/png;base64,AAAA\<close> is such a URL.
\<close>

theorem scheme_filter:
  assumes "urlparse host_ok url = Inr parsed"
    and "scheme parsed \<noteq> ''http''" and "scheme parsed \<noteq> ''https''"
  shows "local_path_for_url host_ok s url = Inr (None, s)"
  using assms by (simp add: local_path_for_url_def)

theorem scheme_filter_witness:
  "urlparse accept_all ''data:image/png;base64,AAAA''
     = Inr \<lparr>scheme = ''data'', netloc = [], path = ''image/png;base64,AAAA'',
            params = [], query = [], fragment = []\<rparr>
   \<and> local_path_for_url accept_all fs0 ''data:image/png;base64,AAAA'' = Inr (None, fs0)"
proof -
  have h: "urlparse accept_all ''data:image/png;base64,AAAA''
     = Inr \<lparr>scheme = ''data'', netloc = [], path = ''image/png;base64,AAAA'',
            params = [], query = [], fragment = []\<rparr>"
    by code_simp
  show ?thesis using h scheme_filter [OF h, of fs0] by simp
qed

subsection \<open>The mapping is a function of the URL\<close>

text \<open>
  Claim C7. The result of \<open>local_path_for_url\<close> does not depend on the file system it
  runs in. A call that returns leaves a file system in which the same call returns the
  same result and changes nothing; in any other file system a call that returns,
  returns the same result; and a URL that \<open>urlparse\<close> rejects is rejected in every file
  system.
\<close>

theorem mapping_deterministic:
  "(local_path_for_url host_ok s url = Inr (r, s1) \<longrightarrow>
      local_path_for_url host_ok s1 url = Inr (r, s1)
      \<and> (\<forall>s2 r2 s3. local_path_for_url host_ok s2 url = Inr (r2, s3) \<longrightarrow> r2 = r))
   \<and> (local_path_for_url host_ok s url = Inl ValueError \<longrightarrow>
      local_path_for_url host_ok s2 url = Inl ValueError)"
  by (auto simp: local_path_for_url_def Let_def split: sum.splits if_splits
      dest: mkdir_again mkdir_error)

theorem mapping_deterministic_witness:
  "local_path_for_url accept_all fs0 ''https://kalashnikovgroup.ru/a/b.js''
     = Inr (Some ([''assets'', ''a'', ''b.js''], ''assets/a/b.js''),
            fs0\<lparr>dirs := {[''assets''], [], [''assets'', ''a'']}\<rparr>)
   \<and> local_path_for_url accept_all (fs0\<lparr>dirs := {[''assets''], [], [''assets'', ''a'']}\<rparr>)
       ''https://kalashnikovgroup.ru/a/b.js''
     = Inr (Some ([''assets'', ''a'', ''b.js''], ''assets/a/b.js''),
            fs0\<lparr>dirs := {[''assets''], [], [''assets'', ''a'']}\<rparr>)
   \<and> local_path_for_url accept_all fs0 ''http://['' = Inl ValueError
   \<and> local_path_for_url accept_all (fs0\<lparr>dirs := {}\<rparr>) ''http://['' = Inl ValueError"
  using mapping_deterministic [of accept_all fs0 "''https://kalashnikovgroup.ru/a/b.js''"
      "Some ([''assets'', ''a'', ''b.js''], ''assets/a/b.js'')"
      "fs0\<lparr>dirs := {[''assets''], [], [''assets'', ''a'']}\<rparr>"]
    mapping_deterministic [of accept_all fs0 "''http://[''" _ _ "fs0\<lparr>dirs := {}\<rparr>"]
    example_local_path example_raise
  by blast

lemma re_sub_some:
  "match_here pat s = Some r \<Longrightarrow> length r < length s \<Longrightarrow>
     re_sub pat repl s = repl @ re_sub pat repl r"
  by (subst re_sub.simps) simp

lemma re_sub_none:
  "match_here pat (c # cs) = None \<Longrightarrow> re_sub pat repl (c # cs) = c # re_sub pat repl cs"
  by (subst re_sub.simps) simp

lemma re_sub_nil: "match_here pat [] = None \<Longrightarrow> re_sub pat repl [] = []"
  by (subst re_sub.simps) simp

lemma re_sub_class:
  "re_sub [(p, One)] r s = concat (map (\<lambda>c. if p c then r else [c]) s)"
proof (induction s)
  case Nil
  show ?case by (simp add: re_sub_nil)
next
  case (Cons c cs)
  show ?case
  proof (cases "p c")
    case True
    then have "match_here [(p, One)] (c # cs) = Some cs" by simp
    from re_sub_some [OF this] show ?thesis using True Cons by simp
  next
    case False
    then have "match_here [(p, One)] (c # cs) = None" by simp
    from re_sub_none [OF this] show ?thesis using False Cons by simp
  qed
qed

lemma re_sub_class_char:
  "re_sub [(p, One)] [x] s = map (\<lambda>c. if p c then x else c) s"
  by (induction s) (simp_all add: re_sub_class)

lemma match_star_slash: "match_here [(slash, Star)] t = Some (dropWhile slash t)"
  by (induction t) simp_all

lemma match_slashes:
  "match_here [(slash, One), (slash, Plus)] s =
     (case s of
        a # b # t \<Rightarrow> if slash a \<and> slash b then Some (dropWhile slash t) else None
      | _ \<Rightarrow> None)"
  by (cases s; simp split: list.splits add: match_star_slash)

lemma squeeze_slash: "squeeze (CHR ''/'' # t) = CHR ''/'' # squeeze (dropWhile slash t)"
  by (induction t) (simp_all add: slash_def)

lemma length_dropWhile_le: "length (dropWhile P t) \<le> length t"
  by (induction t) simp_all

lemma collapse_squeeze: "re_sub [(slash, One), (slash, Plus)] ''/'' s = squeeze s"
proof (induction "length s" arbitrary: s rule: less_induct)
  case less
  show ?case
  proof (cases s)
    case Nil
    then show ?thesis by (simp add: re_sub_nil match_slashes)
  next
    case (Cons a s1)
    note s = Cons
    show ?thesis
    proof (cases s1)
      case Nil
      then show ?thesis using s by (simp add: re_sub_none re_sub_nil match_slashes)
    next
      case (Cons b t)
      show ?thesis
      proof (cases "slash a \<and> slash b")
        case True
        have len: "length (dropWhile slash t) < length s"
          using s Cons length_dropWhile_le [of slash t] by simp
        have m: "match_here [(slash, One), (slash, Plus)] s = Some (dropWhile slash t)"
          using s Cons True by (simp add: match_star_slash)
        have "re_sub [(slash, One), (slash, Plus)] ''/'' s
              = ''/'' @ re_sub [(slash, One), (slash, Plus)] ''/'' (dropWhile slash t)"
          by (rule re_sub_some [OF m len])
        also have "\<dots> = CHR ''/'' # squeeze (dropWhile slash t)"
          using less [OF len] by simp
        also have "\<dots> = squeeze s"
          using s Cons True squeeze_slash [of t] by (simp add: slash_def)
        finally show ?thesis .
      next
        case False
        have m: "match_here [(slash, One), (slash, Plus)] (a # s1) = None"
          using Cons False by (simp add: match_slashes)
        have "re_sub [(slash, One), (slash, Plus)] ''/'' s
              = a # re_sub [(slash, One), (slash, Plus)] ''/'' s1"
          unfolding s by (rule re_sub_none [OF m])
        also have "\<dots> = a # squeeze s1" using less [of s1] s by simp
        also have "\<dots> = squeeze s" using s Cons False by (auto simp: slash_def)
        finally show ?thesis .
      qed
    qed
  qed
qed





lemma join_snoc: "xs \<noteq> [] \<Longrightarrow> join sep (xs @ [y]) = join sep xs @ sep @ y"
  by (induction sep xs rule: join.induct) auto



lemma join_nonempty: "ps \<noteq> [] \<Longrightarrow> [] \<notin> set ps \<Longrightarrow> join sep ps \<noteq> []"
  by (induction sep ps rule: join.induct) auto



lemma split_nonempty: "split c s \<noteq> []"
  by (induction s) (auto split: list.splits)



lemma split_none: "c \<notin> set s \<Longrightarrow> split c s = [s]"
  by (induction s) auto

lemma split_append_sep: "split c (a @ c # b) = split c a @ split c b"
proof (induction a)
  case Nil
  then show ?case by simp
next
  case (Cons x a)
  obtain w ws where w: "split c a = w # ws"
    using split_nonempty [of c a] by (cases "split c a") auto
  show ?case using Cons w by simp
qed

lemma split_last:
  assumes "c \<notin> set b" and "a = [] \<or> last a = c"
  shows "last (split c (a @ b)) = b"
proof (cases a rule: rev_cases)
  case Nil
  then show ?thesis using assms by (simp add: split_none)
next
  case (snoc a' y)
  then have "a @ b = a' @ c # b" using assms by simp
  then show ?thesis using assms(1) by (simp add: split_append_sep split_none)
qed


lemma squeeze_id: "CHR ''/'' \<notin> set s \<Longrightarrow> squeeze s = s"
  by (induction s rule: squeeze.induct) auto

lemma squeeze_append:
  "CHR ''/'' \<notin> set b \<Longrightarrow> b \<noteq> [] \<Longrightarrow> squeeze (a @ b) = squeeze a @ b"
proof (induction a rule: squeeze.induct)
  case 1
  then show ?case by (simp add: squeeze_id)
next
  case (2 x)
  then show ?case by (cases b) (auto simp: squeeze_id)
next
  case (3 x y s)
  then show ?case by auto
qed

lemma squeeze_last: "a \<noteq> [] \<Longrightarrow> squeeze a \<noteq> [] \<and> last (squeeze a) = last a"
  by (induction a rule: squeeze.induct) auto

lemma endswith_slash: "endswith p ''/'' = (p \<noteq> [] \<and> last p = CHR ''/'')"
proof (cases p rule: rev_cases)
  case Nil
  then show ?thesis by (simp add: endswith_def)
next
  case (snoc ys y)
  then show ?thesis by (auto simp: endswith_def)
qed



lemma path_safe_fixed:
  "path_safe CHR ''_''" "path_safe CHR ''/''" "list_all path_safe ''assets''"
  "list_all path_safe ''external''" "list_all path_safe ''index''"
  by code_simp+




lemma sanitize_index: "map sanitize_char ''index'' = ''index''"
  by code_simp

lemma sanitize_slash: "sanitize_char CHR ''/'' = CHR ''/''"
  by (simp add: sanitize_char_def path_safe_fixed)


lemma safe_path_of_eq:
  "safe_path_of p =
     squeeze (map sanitize_char
       (let pth = (if p = [] then ''/'' else p);
            pth = (if endswith pth ''/'' then pth @ ''index'' else pth)
        in if startswith pth ''/'' then drop 1 pth else pth))"
proof -
  have "(\<lambda>c. if \<not> path_safe c then CHR ''_'' else c) = sanitize_char"
    by (auto simp: sanitize_char_def)
  then show ?thesis by (simp add: safe_path_of_def re_sub_class_char collapse_squeeze Let_def)
qed




lemma index_safe_path:
  assumes "p = [] \<or> endswith p ''/''"
  shows "last (split CHR ''/'' (safe_path_of p)) = ''index''"
proof -
  define p1 where "p1 = (if p = [] then ''/'' else p)"
  have p1: "p1 \<noteq> []" "last p1 = CHR ''/''" "endswith p1 ''/''"
    using assms by (auto simp: p1_def endswith_slash)
  define q where "q = (if startswith (p1 @ ''index'') ''/'' then drop 1 p1 else p1)"
  have q: "q = [] \<or> last q = CHR ''/''"
    using p1 by (cases p1) (auto simp: q_def startswith_def split: if_splits)
  have pth: "(if startswith (p1 @ ''index'') ''/'' then drop 1 (p1 @ ''index'') else p1 @ ''index'')
      = q @ ''index''"
    using p1 by (cases p1) (auto simp: q_def startswith_def)
  have "safe_path_of p = squeeze (map sanitize_char
      (if startswith (p1 @ ''index'') ''/'' then drop 1 (p1 @ ''index'') else p1 @ ''index''))"
    unfolding safe_path_of_eq Let_def p1_def [symmetric] using p1(3) by (simp only: if_True)
  also have "\<dots> = squeeze (map sanitize_char (q @ ''index''))"
    by (simp only: pth)
  also have "\<dots> = squeeze (map sanitize_char q) @ ''index''"
  proof -
    have "map sanitize_char (q @ ''index'') = map sanitize_char q @ ''index''"
      by (simp only: map_append sanitize_index)
    moreover have "squeeze (map sanitize_char q @ ''index'') = squeeze (map sanitize_char q) @ ''index''"
      by (rule squeeze_append) simp_all
    ultimately show ?thesis by (simp only:)
  qed
  finally have sp: "safe_path_of p = squeeze (map sanitize_char q) @ ''index''" .
  have "squeeze (map sanitize_char q) = [] \<or> last (squeeze (map sanitize_char q)) = CHR ''/''"
  proof (cases "q = []")
    case True
    then show ?thesis by simp
  next
    case False
    then have "last (map sanitize_char q) = CHR ''/''"
      using q by (simp add: last_map sanitize_slash)
    then show ?thesis using False squeeze_last [of "map sanitize_char q"] by simp
  qed
  then show ?thesis unfolding sp by (intro split_last) auto
qed




lemma last_filter_keep: "xs \<noteq> [] \<Longrightarrow> P (last xs) \<Longrightarrow> last (filter P xs) = last xs"
  by (induction xs rule: rev_induct) auto

lemma local_path_http:
  assumes "urlparse host_ok url = Inr parsed"
    and "scheme parsed = ''http'' \<or> scheme parsed = ''https''"
  shows "local_path_for_url host_ok s url =
     (case mkdir s (parent (''assets'' # Path (host_parts (netloc parsed)
                @ split CHR ''/'' (safe_path_of (path parsed))))) of
        Inl e \<Rightarrow> Inl e
      | Inr s' \<Rightarrow> Inr (Some (''assets'' # Path (host_parts (netloc parsed)
                @ split CHR ''/'' (safe_path_of (path parsed))),
            as_posix (''assets'' # Path (host_parts (netloc parsed)
                @ split CHR ''/'' (safe_path_of (path parsed))))), s'))"
  using assms by (auto simp: local_path_for_url_def Let_def)

subsection \<open>Directory paths\<close>

text \<open>
  Claim C4. For an \<open>http\<close> or \<open>https\<close> URL whose path is empty or ends in \<open>/\<close>, the path
  that \<open>local_path_for_url\<close> computes has \<open>index\<close> as its last component and its relative
  reference ends in \<open>/index\<close>; the call returns this path whenever the directory of
  the path can be created.
\<close>

theorem directory_index:
  assumes "urlparse host_ok url = Inr parsed"
    and "scheme parsed = ''http'' \<or> scheme parsed = ''https''"
    and "path parsed = [] \<or> endswith (path parsed) ''/''"
  shows "\<exists>abs_path. last abs_path = ''index'' \<and> endswith (as_posix abs_path) ''/index''
      \<and> local_path_for_url host_ok s url =
          (case mkdir s (parent abs_path) of
             Inl e \<Rightarrow> Inl e
           | Inr s' \<Rightarrow> Inr (Some (abs_path, as_posix abs_path), s'))"
proof -
  let ?segs = "split CHR ''/'' (safe_path_of (path parsed))"
  let ?parts = "Path (host_parts (netloc parsed) @ ?segs)"
  have l: "last (host_parts (netloc parsed) @ ?segs) = ''index''"
    using index_safe_path [OF assms(3)] split_nonempty by simp
  have "last ?parts = last (host_parts (netloc parsed) @ ?segs)"
    unfolding Path_def by (rule last_filter_keep) (use l split_nonempty in auto)
  then have lp: "last ?parts = ''index''" using l by simp
  have "''index'' \<in> set ?segs"
    using index_safe_path [OF assms(3)] split_nonempty last_in_set by metis
  then have "''index'' \<in> set ?parts" by (simp add: Path_def)
  then have ne: "?parts \<noteq> []" by auto
  then obtain ys where ys: "?parts = ys @ [''index'']"
    using lp by (metis append_butlast_last_id)
  have "as_posix (''assets'' # ?parts) = join ''/'' ((''assets'' # ys) @ [''index''])"
    using ys by (simp add: as_posix_def)
  also have "\<dots> = join ''/'' (''assets'' # ys) @ ''/'' @ ''index''"
    by (rule join_snoc) simp
  finally have "endswith (as_posix (''assets'' # ?parts)) ''/index''"
    by (simp add: endswith_def)
  moreover have "last (''assets'' # ?parts) = ''index''" using ne lp by simp
  ultimately show ?thesis
    using local_path_http [OF assms(1,2), of s] by blast
qed



theorem directory_index_witness:
  "urlparse accept_all ''https://primary.example/about/''
     = Inr \<lparr>scheme = ''https'', netloc = ''primary.example'', path = ''/about/'',
            params = [], query = [], fragment = []\<rparr>
   \<and> urlparse accept_all ''https://primary.example''
     = Inr \<lparr>scheme = ''https'', netloc = ''primary.example'', path = [],
            params = [], query = [], fragment = []\<rparr>
   \<and> (\<exists>abs_path. last abs_path = ''index'' \<and> endswith (as_posix abs_path) ''/index''
      \<and> local_path_for_url accept_all fs0 ''https://primary.example/about/'' =
          (case mkdir fs0 (parent abs_path) of
             Inl e \<Rightarrow> Inl e
           | Inr s' \<Rightarrow> Inr (Some (abs_path, as_posix abs_path), s')))
   \<and> (\<exists>abs_path. last abs_path = ''index'' \<and> endswith (as_posix abs_path) ''/index''
      \<and> local_path_for_url accept_all fs0 ''https://primary.example'' =
          (case mkdir fs0 (parent abs_path) of
             Inl e \<Rightarrow> Inl e
           | Inr s' \<Rightarrow> Inr (Some (abs_path, as_posix abs_path), s')))"
proof -
  have h1: "urlparse accept_all ''https://primary.example/about/''
     = Inr \<lparr>scheme = ''https'', netloc = ''primary.example'', path = ''/about/'',
            params = [], query = [], fragment = []\<rparr>"
    by code_simp
  have h2: "urlparse accept_all ''https://primary.example''
     = Inr \<lparr>scheme = ''https'', netloc = ''primary.example'', path = [],
            params = [], query = [], fragment = []\<rparr>"
    by code_simp
  have e: "endswith ''/about/'' ''/''" by code_simp
  show ?thesis
    using h1 h2 directory_index [OF h1, of fs0] directory_index [OF h2, of fs0] e
    by simp
qed

subsection \<open>The directory of a host\<close>











subsection \<open>Exceptions and the characters of the path\<close>









section \<open>Properties of the rewrite\<close>

lemma replace_char:
  "replace s [c] new = concat (map (\<lambda>x. if x = c then new else [x]) s)"
  by (induction s) (auto simp: replace_def startswith_def)

lemma replace_from_absent: "\<not> contains s old \<Longrightarrow> replace_from old new s = s"
  by (induction s) auto

lemma contains_nil: "contains s []"
  by (cases s) (simp_all add: startswith_def)

lemma replace_absent: "\<not> contains s old \<Longrightarrow> replace s old new = s"
  using contains_nil [of s] by (cases "old = []") (auto simp: replace_def replace_from_absent)

subsection \<open>A URL whose path is the root\<close>

text \<open>
  Claim C10. For a pair of \<open>url_map\<close> whose URL has the path \<open>/\<close>, the turn of the loop
  replaces every \<open>/\<close> of the text that the first two replacements leave by the local
  path; when the document holds neither the URL nor its form without scheme, that is
  every \<open>/\<close> of the document.
\<close>

theorem root_path_every_slash:
  assumes "urlparse host_ok src_url = Inr parsed" and "path parsed = ''/''"
  shows "rewrite_pair host_ok rewritten (src_url, local_rel) =
       concat (map (\<lambda>c. if c = CHR ''/'' then local_rel else [c])
         (if netloc parsed \<noteq> []
          then replace (replace rewritten src_url local_rel)
                 (''//'' @ netloc parsed @ ''/'') local_rel
          else replace rewritten src_url local_rel))
     \<and> (\<not> contains rewritten src_url \<and> \<not> contains rewritten (''//'' @ netloc parsed @ ''/'') \<longrightarrow>
          rewrite_pair host_ok rewritten (src_url, local_rel) =
            concat (map (\<lambda>c. if c = CHR ''/'' then local_rel else [c]) rewritten))"
proof -
  have 1: "rewrite_pair host_ok rewritten (src_url, local_rel) =
       concat (map (\<lambda>c. if c = CHR ''/'' then local_rel else [c])
         (if netloc parsed \<noteq> []
          then replace (replace rewritten src_url local_rel)
                 (''//'' @ netloc parsed @ ''/'') local_rel
          else replace rewritten src_url local_rel))"
    using assms by (simp add: rewrite_pair_def Let_def replace_char)
  show ?thesis
  proof (intro conjI impI)
    show "rewrite_pair host_ok rewritten (src_url, local_rel) =
       concat (map (\<lambda>c. if c = CHR ''/'' then local_rel else [c])
         (if netloc parsed \<noteq> []
          then replace (replace rewritten src_url local_rel)
                 (''//'' @ netloc parsed @ ''/'') local_rel
          else replace rewritten src_url local_rel))" by (rule 1)
  next
    assume a: "\<not> contains rewritten src_url \<and> \<not> contains rewritten (''//'' @ netloc parsed @ ''/'')"
    then show "rewrite_pair host_ok rewritten (src_url, local_rel) =
            concat (map (\<lambda>c. if c = CHR ''/'' then local_rel else [c]) rewritten)"
      unfolding 1 by (simp add: replace_absent)
  qed
qed



lemma start_parse:
  "urlparse accept_all ''https://kalashnikovgroup.ru/''
     = Inr \<lparr>scheme = ''https'', netloc = ''kalashnikovgroup.ru'', path = ''/'',
            params = [], query = [], fragment = []\<rparr>"
  by code_simp

theorem root_path_every_slash_witness:
  "urlparse accept_all ''https://kalashnikovgroup.ru/''
     = Inr \<lparr>scheme = ''https'', netloc = ''kalashnikovgroup.ru'', path = ''/'',
            params = [], query = [], fragment = []\<rparr>
   \<and> \<not> contains ''<a href=\"/x/y\">'' ''https://kalashnikovgroup.ru/''
   \<and> \<not> contains ''<a href=\"/x/y\">'' ''//kalashnikovgroup.ru/''
   \<and> rewrite_pair accept_all ''<a href=\"/x/y\">'' (''https://kalashnikovgroup.ru/'', ''assets/index'')
     = ''<a href=\"assets/indexxassets/indexy\">''"
proof -
  let ?R = "\<lparr>scheme = ''https'', netloc = ''kalashnikovgroup.ru'', path = ''/'',
            params = [], query = [], fragment = []\<rparr>"
  have p: "path ?R = ''/''" by simp
  have c1: "\<not> contains ''<a href=\"/x/y\">'' ''https://kalashnikovgroup.ru/''" by code_simp
  have c2: "\<not> contains ''<a href=\"/x/y\">'' ''//kalashnikovgroup.ru/''" by code_simp
  have c3: "\<not> contains ''<a href=\"/x/y\">'' (''//'' @ netloc ?R @ ''/'')" by code_simp
  have e: "concat (map (\<lambda>c. if c = CHR ''/'' then ''assets/index'' else [c]) ''<a href=\"/x/y\">'')
      = ''<a href=\"assets/indexxassets/indexy\">''" by code_simp
  have "rewrite_pair accept_all ''<a href=\"/x/y\">'' (''https://kalashnikovgroup.ru/'', ''assets/index'')
      = concat (map (\<lambda>c. if c = CHR ''/'' then ''assets/index'' else [c]) ''<a href=\"/x/y\">'')"
    by (rule mp [OF conjunct2 [OF root_path_every_slash [OF start_parse p]] conjI [OF c1 c3]])
  then have "rewrite_pair accept_all ''<a href=\"/x/y\">'' (''https://kalashnikovgroup.ru/'', ''assets/index'')
     = ''<a href=\"assets/indexxassets/indexy\">''"
    by (simp only: e)
  then show ?thesis by (intro conjI start_parse c1 c2)
qed

subsection \<open>What the third replacement does to the first two\<close>

lemma scenario_passes:
  "foldl (rewrite_pair accept_all)
      ''<script src=\"https://primary.example/app.js\"></script></head>''
      [(''https://primary.example/app.js'', ''assets/app.js'')]
    = ''<script src=\"assetsassets/app.js\"></script></head>''"
  by code_simp

lemma scenario_strip:
  "strip_sri (strip_csp ''<script src=\"assetsassets/app.js\"></script></head>'')
    = ''<script src=\"assetsassets/app.js\"></script></head>''"
  by code_simp

lemma scenario_inject:
  "inject ''<script src=\"assetsassets/app.js\"></script></head>''
    = ''<script src=\"assetsassets/app.js\"></script>'' @ rewriter_js @ ''</head>''"
proof -
  have "contains ''<script src=\"assetsassets/app.js\"></script></head>'' ''</head>''"
    by code_simp
  then show ?thesis by (simp add: inject_def replace_def startswith_def)
qed

text \<open>
  Claim C1, the code at the input of the claim. The first replacement gives
  \<open>src="assets/app.js"\<close>, and the third replaces the \<open>/app.js\<close> in it again: the output of
  the rewrite has \<open>src="assetsassets/app.js"\<close>. The interceptor script stands before
  \<open></head>\<close>, as the claim says.
\<close>

theorem scenario_output:
  "rewrite accept_all ''<script src=\"https://primary.example/app.js\"></script></head>''
      [(''https://primary.example/app.js'', ''assets/app.js'')]
    = ''<script src=\"assetsassets/app.js\"></script>'' @ rewriter_js @ ''</head>''"
  by (simp only: rewrite_def scenario_passes scenario_strip scenario_inject)



lemma recorded_js:
  "saved_map (on_response accept_all cap0 js_response)
     = [(''https://kalashnikovgroup.ru/a.js'', ''assets/a.js'')]"
  by code_simp

text \<open>
  Claim C2, the code at a failing input. The handler records the script
  \<open>https://kalashnikovgroup.ru/a.js\<close> under \<open>assets/a.js\<close>; in a document with the URL, its
  form without scheme and its bare path, the third replacement changes the two local
  paths that the first two had written, and only the third form ends as the local path.
\<close>

theorem three_forms_output:
  "saved_map (on_response accept_all cap0 js_response)
     = [(''https://kalashnikovgroup.ru/a.js'', ''assets/a.js'')]
   \<and> foldl (rewrite_pair accept_all)
       ''https://kalashnikovgroup.ru/a.js //kalashnikovgroup.ru/a.js /a.js''
       (saved_map (on_response accept_all cap0 js_response))
     = ''assetsassets/a.js assetsassets/a.js assets/a.js''"
  by code_simp




end
